theory Spec2Isabelle
  imports Main
begin

section \<open>The page tree (\<^verbatim>\<open>src/lib/pages.ts\<close>)\<close>

text \<open>
  A \<^verbatim>\<open>RevisionPage\<close> is a tagged union with the tags \<^verbatim>\<open>'document'\<close>, \<^verbatim>\<open>'group'\<close> and
  \<^verbatim>\<open>'link'\<close>. Documents and groups carry \<^verbatim>\<open>id\<close>, \<^verbatim>\<open>path\<close>, \<^verbatim>\<open>title\<close> and the ordered
  children \<^verbatim>\<open>pages\<close>; a link carries no \<^verbatim>\<open>path\<close> and no \<^verbatim>\<open>pages\<close>, and the code never
  reads them from a link. A JavaScript string is modelled as the list of its code units,
  of type \<^typ>\<open>string\<close>: \<^verbatim>\<open>.length\<close> is the length of the list and \<^verbatim>\<open>===\<close> is equality.
\<close>

datatype RevisionPage =
    Document (page_id: string) (page_path: string) (page_title: string)
      (page_pages: "RevisionPage list")
  | Group (page_id: string) (page_path: string) (page_title: string)
      (page_pages: "RevisionPage list")
  | Link (page_id: string) (page_title: string)

text \<open>The tag \<^verbatim>\<open>page.type\<close>.\<close>

datatype PageType = TypeDocument | TypeGroup | TypeLink

fun page_type :: "RevisionPage \<Rightarrow> PageType" where
  "page_type (Document i pa t cs) = TypeDocument"
| "page_type (Group i pa t cs) = TypeGroup"
| "page_type (Link i t) = TypeLink"

text \<open>The value \<^verbatim>\<open>{ page, ancestors }\<close> returned by the resolvers; \<^verbatim>\<open>undefined\<close> is \<open>None\<close>.\<close>

record resolved =
  page :: RevisionPage
  ancestors :: "RevisionPage list"

text \<open>
  \<^verbatim>\<open>resolveFirstDocument\<close> and \<^verbatim>\<open>resolvePageDocument\<close> call each other. The \<^verbatim>\<open>for\<close> loop of
  \<^verbatim>\<open>resolveFirstDocument\<close> skips links and returns, unconditionally, what
  \<^verbatim>\<open>resolvePageDocument\<close> gives for the first page that is not a link.
\<close>

fun resolveFirstDocument :: "RevisionPage list \<Rightarrow> RevisionPage list \<Rightarrow> resolved option"
  and resolvePageDocument :: "RevisionPage \<Rightarrow> RevisionPage list \<Rightarrow> resolved option"
where
  "resolveFirstDocument [] ancs = None"
| "resolveFirstDocument (Link i t # ps) ancs = resolveFirstDocument ps ancs"
| "resolveFirstDocument (Document i pa t cs # ps) ancs =
     resolvePageDocument (Document i pa t cs) ancs"
| "resolveFirstDocument (Group i pa t cs # ps) ancs =
     resolvePageDocument (Group i pa t cs) ancs"
| "resolvePageDocument (Group i pa t cs) ancs =
     (case resolveFirstDocument cs (ancs @ [Group i pa t cs]) of
        Some firstDocument \<Rightarrow> Some firstDocument
      | None \<Rightarrow> None)"
| "resolvePageDocument (Link i t) ancs = None"
| "resolvePageDocument (Document i pa t cs) ancs =
     Some \<lparr>page = Document i pa t cs, ancestors = ancs\<rparr>"

text \<open>
  The local \<^verbatim>\<open>iteratePages\<close> of \<^verbatim>\<open>resolvePagePath\<close>, with the captured \<^verbatim>\<open>pagePath\<close> as its
  first argument: a link is skipped; a page with another path is searched through its
  children, and the loop goes on when that search gives nothing; a page with the path is
  handed to \<^verbatim>\<open>resolvePageDocument\<close> and its answer returned as it is.
\<close>

fun iteratePagesByPath ::
  "string \<Rightarrow> RevisionPage list \<Rightarrow> RevisionPage list \<Rightarrow> resolved option"
where
  "iteratePagesByPath pagePath [] ancs = None"
| "iteratePagesByPath pagePath (Link i t # ps) ancs = iteratePagesByPath pagePath ps ancs"
| "iteratePagesByPath pagePath (Document i pa t cs # ps) ancs =
     (if pa \<noteq> pagePath then
        (case iteratePagesByPath pagePath cs (ancs @ [Document i pa t cs]) of
           Some result \<Rightarrow> Some result
         | None \<Rightarrow> iteratePagesByPath pagePath ps ancs)
      else resolvePageDocument (Document i pa t cs) ancs)"
| "iteratePagesByPath pagePath (Group i pa t cs # ps) ancs =
     (if pa \<noteq> pagePath then
        (case iteratePagesByPath pagePath cs (ancs @ [Group i pa t cs]) of
           Some result \<Rightarrow> Some result
         | None \<Rightarrow> iteratePagesByPath pagePath ps ancs)
      else resolvePageDocument (Group i pa t cs) ancs)"

text \<open>\<^verbatim>\<open>!pagePath\<close> holds exactly for the empty string.\<close>

definition resolvePagePath :: "RevisionPage list \<Rightarrow> string \<Rightarrow> resolved option" where
  "resolvePagePath rootPages pagePath =
     (if pagePath = [] then
        (case resolveFirstDocument rootPages [] of
           None \<Rightarrow> None
         | Some firstPage \<Rightarrow> Some firstPage)
      else iteratePagesByPath pagePath rootPages [])"

text \<open>The local \<^verbatim>\<open>iteratePages\<close> of \<^verbatim>\<open>resolvePageId\<close>, with the captured \<^verbatim>\<open>pageId\<close>.\<close>

fun iteratePagesById ::
  "string \<Rightarrow> RevisionPage list \<Rightarrow> RevisionPage list \<Rightarrow> resolved option"
where
  "iteratePagesById pageId [] ancs = None"
| "iteratePagesById pageId (Link i t # ps) ancs = iteratePagesById pageId ps ancs"
| "iteratePagesById pageId (Document i pa t cs # ps) ancs =
     (if i = pageId then resolvePageDocument (Document i pa t cs) ancs
      else
        (case iteratePagesById pageId cs (ancs @ [Document i pa t cs]) of
           Some result \<Rightarrow> Some result
         | None \<Rightarrow> iteratePagesById pageId ps ancs))"
| "iteratePagesById pageId (Group i pa t cs # ps) ancs =
     (if i = pageId then resolvePageDocument (Group i pa t cs) ancs
      else
        (case iteratePagesById pageId cs (ancs @ [Group i pa t cs]) of
           Some result \<Rightarrow> Some result
         | None \<Rightarrow> iteratePagesById pageId ps ancs))"

definition resolvePageId :: "RevisionPage list \<Rightarrow> string \<Rightarrow> resolved option" where
  "resolvePageId rootPages pageId = iteratePagesById pageId rootPages []"

text \<open>
  \<^verbatim>\<open>flattenPages\<close>: pre-order, links skipped, a document pushed before its children, a
  group not pushed.
\<close>

fun flattenPages :: "RevisionPage list \<Rightarrow> RevisionPage list" where
  "flattenPages [] = []"
| "flattenPages (Link i t # ps) = flattenPages ps"
| "flattenPages (Document i pa t cs # ps) =
     Document i pa t cs # flattenPages cs @ flattenPages ps"
| "flattenPages (Group i pa t cs # ps) = flattenPages cs @ flattenPages ps"

text \<open>
  \<^verbatim>\<open>Array.prototype.findIndex\<close> gives \<open>-1\<close> when no element satisfies the predicate, and
  reading an array at an index outside \<open>0 \<dots> length - 1\<close> gives \<^verbatim>\<open>undefined\<close>.
\<close>

fun findIndexFrom :: "int \<Rightarrow> ('a \<Rightarrow> bool) \<Rightarrow> 'a list \<Rightarrow> int" where
  "findIndexFrom k P [] = - 1"
| "findIndexFrom k P (x # xs) = (if P x then k else findIndexFrom (k + 1) P xs)"

definition findIndex :: "('a \<Rightarrow> bool) \<Rightarrow> 'a list \<Rightarrow> int" where
  "findIndex P xs = findIndexFrom 0 P xs"

definition arrayAt :: "'a list \<Rightarrow> int \<Rightarrow> 'a option" where
  "arrayAt xs k = (if 0 \<le> k \<and> k < int (length xs) then Some (xs ! nat k) else None)"

record prevNext =
  previous :: "RevisionPage option"
  nextPage :: "RevisionPage option"

definition resolvePrevNextPages :: "RevisionPage list \<Rightarrow> RevisionPage \<Rightarrow> prevNext" where
  "resolvePrevNextPages rootPages pg =
     (let flat = flattenPages rootPages;
          currentIndex = findIndex (\<lambda>p. page_id p = page_id pg) flat
      in if currentIndex = - 1 then \<lparr>previous = None, nextPage = None\<rparr>
         else \<lparr>previous = arrayAt flat (currentIndex - 1),
               nextPage = arrayAt flat (currentIndex + 1)\<rparr>)"

text \<open>
  A specification device, not part of the source: every document of the tree that is
  reachable without passing through a link, in pre-order, paired with the chain of
  documents and groups that lead to it from the root (appended to a given prefix).
\<close>

fun docsWithAncestors :: "RevisionPage list \<Rightarrow> RevisionPage list \<Rightarrow> resolved list" where
  "docsWithAncestors [] ancs = []"
| "docsWithAncestors (Link i t # ps) ancs = docsWithAncestors ps ancs"
| "docsWithAncestors (Document i pa t cs # ps) ancs =
     \<lparr>page = Document i pa t cs, ancestors = ancs\<rparr>
       # docsWithAncestors cs (ancs @ [Document i pa t cs]) @ docsWithAncestors ps ancs"
| "docsWithAncestors (Group i pa t cs # ps) ancs =
     docsWithAncestors cs (ancs @ [Group i pa t cs]) @ docsWithAncestors ps ancs"

text \<open>
  The identifiers of all nodes of a tree, links included. The data model asks that they
  be pairwise different.
\<close>

fun allIds :: "RevisionPage list \<Rightarrow> string list" where
  "allIds [] = []"
| "allIds (Link i t # ps) = i # allIds ps"
| "allIds (Document i pa t cs # ps) = i # allIds cs @ allIds ps"
| "allIds (Group i pa t cs # ps) = i # allIds cs @ allIds ps"


section \<open>Site search (\<^verbatim>\<open>searchSiteContent\<close>)\<close>

text \<open>
  The API client, \<^verbatim>\<open>absoluteHref\<close> and \<^verbatim>\<open>pageHref\<close> are defined in other files and are
  parameters of the model. A call of the API client either gives its value or rejects;
  a rejected promise that is awaited throws, which is the \<open>Inl\<close> of a sum.
\<close>

datatype error = BackendFailure string

record Space =
  space_id :: string
  space_title :: string
  space_urls_published :: "string option"
  space_urls_app :: string

record SiteSpace =
  siteSpace_space :: Space
  siteSpace_urls_published :: "string option"

record SiteSection =
  section_title :: string
  section_siteSpaces :: "SiteSpace list"

datatype SiteStructure =
    StructureSiteSpaces "SiteSpace list"
  | StructureSections "SiteSection list"

record SearchSectionResult =
  searchSection_id :: string
  searchSection_title :: string
  searchSection_path :: string
  searchSection_body :: string

record SearchPageResult =
  item_id :: string
  item_title :: string
  item_path :: string
  item_sections :: "SearchSectionResult list option"

record SearchSpaceResult =
  spaceItem_id :: string
  spaceItem_pages :: "SearchPageResult list"

datatype SearchScope =
    ScopeAll
  | ScopeCurrent string
  | ScopeSpecific "string list"

record SiteContentPointer =
  organizationId :: string
  siteId :: string

text \<open>
  \<^verbatim>\<open>OrderedComputedResult\<close>: a page record (\<^verbatim>\<open>id\<close>, \<^verbatim>\<open>title\<close>, \<^verbatim>\<open>href\<close>, optional
  \<^verbatim>\<open>spaceTitle\<close>) or a section record (\<^verbatim>\<open>id\<close>, \<^verbatim>\<open>title\<close>, \<^verbatim>\<open>href\<close>, \<^verbatim>\<open>body\<close>).
\<close>

datatype OrderedComputedResult =
    ComputedPageResult string string string "string option"
  | ComputedSectionResult string string string string

fun spaceTitle :: "OrderedComputedResult \<Rightarrow> string option" where
  "spaceTitle (ComputedPageResult i t h st) = st"
| "spaceTitle (ComputedSectionResult i t h b) = None"

text \<open>The calls made on the API client, in the order they are issued.\<close>

datatype ApiCall =
    CallSearchSiteContent string string string SearchScope "string option"
  | CallGetSiteData SiteContentPointer

record Api =
  api_searchSiteContent ::
    "string \<Rightarrow> string \<Rightarrow> string \<Rightarrow> SearchScope \<Rightarrow> string option
       \<Rightarrow> error + SearchSpaceResult list"
  api_getSiteData :: "SiteContentPointer \<Rightarrow> error + SiteStructure"

record SearchArgs =
  args_pointer :: SiteContentPointer
  args_query :: string
  args_scope :: SearchScope
  args_cacheBust :: "string option"

text \<open>
  \<^verbatim>\<open>getURL\<close> inside \<^verbatim>\<open>transformSectionsAndPage\<close>: \<^verbatim>\<open>if (spaceURL)\<close> fails for \<^verbatim>\<open>undefined\<close>
  and for the empty string.
\<close>

definition getURL :: "(string \<Rightarrow> string) \<Rightarrow> string \<Rightarrow> string option \<Rightarrow> string" where
  "getURL absoluteHref path' spaceURL =
     (case spaceURL of
        None \<Rightarrow> absoluteHref path'
      | Some url \<Rightarrow>
          if url = [] then absoluteHref path'
          else
            (let url1 = (if last url \<noteq> CHR ''/'' then url @ ''/'' else url);
                 path1 = (if path' \<noteq> [] \<and> hd path' = CHR ''/'' then tl path' else path')
             in url1 @ path1))"

definition transformSectionsAndPage ::
  "(string \<Rightarrow> string) \<Rightarrow> SearchPageResult \<Rightarrow> Space option \<Rightarrow> string option
     \<Rightarrow> OrderedComputedResult \<times> OrderedComputedResult list"
where
  "transformSectionsAndPage absoluteHref item space spaceURL =
     (let sections =
            (case item_sections item of
               None \<Rightarrow> []
             | Some secs \<Rightarrow>
                 map (\<lambda>section.
                        ComputedSectionResult (item_id item @ ''/'' @ searchSection_id section)
                          (searchSection_title section)
                          (getURL absoluteHref (searchSection_path section) spaceURL)
                          (searchSection_body section)) secs);
          page' = ComputedPageResult (item_id item) (item_title item)
                    (getURL absoluteHref (item_path item) spaceURL)
                    (map_option space_title space)
      in (page', sections))"

definition transformSitePageResult ::
  "(string \<Rightarrow> string) \<Rightarrow> SearchPageResult \<Rightarrow> SiteSpace option \<Rightarrow> OrderedComputedResult list"
where
  "transformSitePageResult absoluteHref item siteSpace =
     (case transformSectionsAndPage absoluteHref item (map_option siteSpace_space siteSpace)
             (case siteSpace of None \<Rightarrow> None | Some s \<Rightarrow> siteSpace_urls_published s) of
        (page', sections) \<Rightarrow> page' # sections)"

text \<open>
  \<^verbatim>\<open>transformPageResult\<close>: the space URL is \<^verbatim>\<open>space?.urls.published ?? space?.urls.app\<close>.
  Its one call, in \<^verbatim>\<open>searchSiteContent\<close>, passes no space.
\<close>

definition transformPageResult ::
  "(string \<Rightarrow> string) \<Rightarrow> SearchPageResult \<Rightarrow> Space option \<Rightarrow> OrderedComputedResult list"
where
  "transformPageResult absoluteHref item space =
     (case transformSectionsAndPage absoluteHref item space
             (case space of
                None \<Rightarrow> None
              | Some sp \<Rightarrow>
                  (case space_urls_published sp of
                     Some url \<Rightarrow> Some url
                   | None \<Rightarrow> Some (space_urls_app sp))) of
        (page', sections) \<Rightarrow> page' # sections)"

text \<open>
  The body of the \<^verbatim>\<open>reduce\<close> over the sections of a sectioned site: each site-space of the
  section, with the title of its space replaced by \<^verbatim>\<open>section.title || siteSpace.space.title\<close>
  (the section's title unless that is the empty string).
\<close>

definition sectionSiteSpaces :: "SiteSection \<Rightarrow> SiteSpace list" where
  "sectionSiteSpaces section =
     map (\<lambda>siteSpace.
            siteSpace\<lparr>siteSpace_space :=
              (siteSpace_space siteSpace)\<lparr>space_title :=
                 (if section_title section \<noteq> [] then section_title section
                  else space_title (siteSpace_space siteSpace))\<rparr>\<rparr>)
         (section_siteSpaces section)"

definition structureSiteSpaces :: "SiteStructure \<Rightarrow> SiteSpace list" where
  "structureSiteSpaces siteStructure =
     (case siteStructure of
        StructureSiteSpaces structure \<Rightarrow> structure
      | StructureSections structure \<Rightarrow>
          foldl (\<lambda>prev section. prev @ sectionSiteSpaces section) [] structure)"

definition needsStructure :: "SearchScope \<Rightarrow> bool" where
  "needsStructure scope =
     (case scope of
        ScopeAll \<Rightarrow> True
      | ScopeCurrent siteSpaceId \<Rightarrow> True
      | ScopeSpecific siteSpaceIds \<Rightarrow> length siteSpaceIds > 1)"

text \<open>
  \<^verbatim>\<open>searchSiteContent\<close> returns its result (or the error thrown) and the calls it made on the
  API client. Both calls of the \<^verbatim>\<open>Promise.all\<close> are issued before either is awaited; when
  both reject, the model reports the search's error.
\<close>

definition searchSiteContent ::
  "Api \<Rightarrow> (string \<Rightarrow> string) \<Rightarrow> SearchArgs
     \<Rightarrow> (error + OrderedComputedResult list) \<times> ApiCall list"
where
  "searchSiteContent api absoluteHref args =
     (let pointer = args_pointer args; scope = args_scope args;
          query = args_query args; cacheBust = args_cacheBust args
      in if length query \<le> 1 then (Inr [], [])
         else
           (let calls =
                  CallSearchSiteContent (organizationId pointer) (siteId pointer) query scope
                      cacheBust
                    # (if needsStructure scope then [CallGetSiteData pointer] else [])
            in case api_searchSiteContent api (organizationId pointer) (siteId pointer) query
                      scope cacheBust of
                 Inl e \<Rightarrow> (Inl e, calls)
               | Inr items \<Rightarrow>
                   if needsStructure scope then
                     (case api_getSiteData api pointer of
                        Inl e \<Rightarrow> (Inl e, calls)
                      | Inr siteStructure \<Rightarrow>
                          (let siteSpaces = structureSiteSpaces siteStructure
                           in (Inr (concat (concat
                                 (map (\<lambda>spaceItem.
                                    (let siteSpace =
                                           find (\<lambda>siteSpace.
                                                   space_id (siteSpace_space siteSpace)
                                                     = spaceItem_id spaceItem) siteSpaces
                                     in map (\<lambda>item.
                                              transformSitePageResult absoluteHref item siteSpace)
                                          (spaceItem_pages spaceItem))) items))),
                               calls)))
                   else
                     (Inr (concat (concat
                        (map (\<lambda>spaceItem.
                                map (\<lambda>item. transformPageResult absoluteHref item None)
                                  (spaceItem_pages spaceItem)) items))),
                      calls)))"


section \<open>Streamed answers (\<^verbatim>\<open>streamAskQuestion\<close>, \<^verbatim>\<open>transformAnswer\<close>)\<close>

text \<open>
  A source of an answer is of type \<^verbatim>\<open>'page'\<close>, with the identifiers of its space and its
  page, or of another type. The answer's body is present or not, and when present it is
  in document form (\<^verbatim>\<open>'document' in answer.answer\<close>) or not. A document is opaque here.
\<close>

type_synonym JSONDocument = string

datatype SearchAIAnswerSource =
    PageSource (source_space: string) (source_page: string)
  | OtherSource

datatype AnswerBody =
    AnswerDocument JSONDocument
  | AnswerMarkdown string

record SearchAIAnswer =
  answer_answer :: "AnswerBody option"
  answer_followupQuestions :: "string list"
  answer_sources :: "SearchAIAnswerSource list"

text \<open>The rendered body: the \<^verbatim>\<open>DocumentView\<close> element of the answer's document.\<close>

datatype ReactNode = DocumentView JSONDocument

record AskAnswerSource =
  ask_id :: string
  ask_title :: string
  ask_href :: string

record AskAnswerResult =
  body :: "ReactNode option"
  followupQuestions :: "string list"
  sources :: "AskAnswerSource list"

text \<open>
  The state of one aggregation: the \<^verbatim>\<open>spaceData\<close> map, and a trace of the fetches of
  \<^verbatim>\<open>api.getSpaceContentData\<close> (when each is started and when it settles). The trace is
  not in the source; it records the effect the source has on the backend.
\<close>

datatype FetchEvent = FetchStart string | FetchEnd string

record AggState =
  spaceData :: "string \<rightharpoonup> RevisionPage list"
  trace :: "FetchEvent list"

text \<open>
  The \<^verbatim>\<open>reduce\<close> into a \<^verbatim>\<open>Set\<close>: a JavaScript \<^verbatim>\<open>Set\<close> keeps its elements once each, in
  the order they were first added, and \<^verbatim>\<open>values()\<close> iterates in that order.
\<close>

definition setAdd :: "'a list \<Rightarrow> 'a \<Rightarrow> 'a list" where
  "setAdd s x = (if x \<in> set s then s else s @ [x])"

definition referencedSpaces :: "SearchAIAnswerSource list \<Rightarrow> string list" where
  "referencedSpaces srcs =
     foldl (\<lambda>s source.
              case source of
                OtherSource \<Rightarrow> s
              | PageSource space pg \<Rightarrow> setAdd s space) [] srcs"

text \<open>
  \<^verbatim>\<open>pMap(spaces.values(), mapper, { concurrency: 1 })\<close>: the mapper runs on one space at a
  time, in the order of the set, and the first rejection rejects the whole \<^verbatim>\<open>pMap\<close>
  with no further mapper started. The mapper returns at once for a space the map already
  has, and otherwise fetches the space's pages and stores them.
\<close>

fun pMapSpaces ::
  "(string \<Rightarrow> error + RevisionPage list) \<Rightarrow> string list \<Rightarrow> AggState \<Rightarrow> error option \<times> AggState"
where
  "pMapSpaces getSpaceContentData [] st = (None, st)"
| "pMapSpaces getSpaceContentData (spaceId # rest) st =
     (if spaceData st spaceId \<noteq> None then pMapSpaces getSpaceContentData rest st
      else
        (case getSpaceContentData spaceId of
           Inl e \<Rightarrow>
             (Some e, st\<lparr>trace := trace st @ [FetchStart spaceId, FetchEnd spaceId]\<rparr>)
         | Inr pages \<Rightarrow>
             pMapSpaces getSpaceContentData rest
               (st\<lparr>spaceData := (spaceData st)(spaceId \<mapsto> pages),
                   trace := trace st @ [FetchStart spaceId, FetchEnd spaceId]\<rparr>)))"

text \<open>
  Modelled from the spec: \<^verbatim>\<open>filterOutNullable\<close> of \<^verbatim>\<open>@/lib/typescript\<close> is defined in
  another file; as the predicate of \<^verbatim>\<open>filter\<close> it keeps the entries that are not
  \<^verbatim>\<open>null\<close> (``an \<^verbatim>\<open>AnswerSource\<close> is dropped (filtered out), never defaulted'').
\<close>

fun filterOutNullable :: "'a option list \<Rightarrow> 'a list" where
  "filterOutNullable [] = []"
| "filterOutNullable (None # xs) = filterOutNullable xs"
| "filterOutNullable (Some x # xs) = x # filterOutNullable xs"

text \<open>The function mapped over \<^verbatim>\<open>answer.sources\<close>, with the map it reads.\<close>

definition answerSource ::
  "(RevisionPage list \<Rightarrow> RevisionPage \<Rightarrow> string) \<Rightarrow> (string \<rightharpoonup> RevisionPage list)
     \<Rightarrow> SearchAIAnswerSource \<Rightarrow> AskAnswerSource option"
where
  "answerSource pageHref spaceData' source =
     (case source of
        OtherSource \<Rightarrow> None
      | PageSource space pg \<Rightarrow>
          (case spaceData' space of
             None \<Rightarrow> None
           | Some pages \<Rightarrow>
               (case resolvePageId pages pg of
                  None \<Rightarrow> None
                | Some found \<Rightarrow>
                    Some \<lparr>ask_id = pg, ask_title = page_title (page found),
                          ask_href = pageHref pages (page found)\<rparr>)))"

definition transformAnswer ::
  "(string \<Rightarrow> error + RevisionPage list) \<Rightarrow> (RevisionPage list \<Rightarrow> RevisionPage \<Rightarrow> string)
     \<Rightarrow> SearchAIAnswer \<Rightarrow> AggState \<Rightarrow> (error + AskAnswerResult) \<times> AggState"
where
  "transformAnswer getSpaceContentData pageHref answer st =
     (let spaces = referencedSpaces (answer_sources answer)
      in case pMapSpaces getSpaceContentData spaces st of
           (Some e, st') \<Rightarrow> (Inl e, st')
         | (None, st') \<Rightarrow>
             (let sources' =
                    filterOutNullable
                      (map (answerSource pageHref (spaceData st')) (answer_sources answer))
              in (Inr \<lparr>body =
                         (case answer_answer answer of
                            Some (AnswerDocument document) \<Rightarrow> Some (DocumentView document)
                          | Some (AnswerMarkdown other) \<Rightarrow> None
                          | None \<Rightarrow> None),
                       followupQuestions = answer_followupQuestions answer,
                       sources = sources'\<rparr>,
                  st')))"

text \<open>
  \<^verbatim>\<open>streamAskQuestion\<close>: the stream of the backend is the list of the chunks it delivers,
  \<open>None\<close> for an empty chunk. The generator skips empty chunks, transforms each other
  chunk with the one \<^verbatim>\<open>spaceData\<close> map of the call and yields the result; a failure of
  \<^verbatim>\<open>transformAnswer\<close> ends the generator. The result is what was yielded, the error
  thrown (if any) and the final state.
\<close>

record Chunk =
  chunk_answer :: SearchAIAnswer

fun consumeStream ::
  "(string \<Rightarrow> error + RevisionPage list) \<Rightarrow> (RevisionPage list \<Rightarrow> RevisionPage \<Rightarrow> string)
     \<Rightarrow> Chunk option list \<Rightarrow> AggState \<Rightarrow> AskAnswerResult list \<times> error option \<times> AggState"
where
  "consumeStream getSpaceContentData pageHref [] st = ([], None, st)"
| "consumeStream getSpaceContentData pageHref (None # stream) st =
     consumeStream getSpaceContentData pageHref stream st"
| "consumeStream getSpaceContentData pageHref (Some chunk # stream) st =
     (case transformAnswer getSpaceContentData pageHref (chunk_answer chunk) st of
        (Inl e, st') \<Rightarrow> ([], Some e, st')
      | (Inr encoded, st') \<Rightarrow>
          (case consumeStream getSpaceContentData pageHref stream st' of
             (yielded, err, st'') \<Rightarrow> (encoded # yielded, err, st'')))"

text \<open>
  The request that \<^verbatim>\<open>streamAskQuestion\<close> sends to \<^verbatim>\<open>streamAskInSite\<close>: the context and
  the included site-spaces are present when \<^verbatim>\<open>siteSpaceId\<close> is truthy (neither \<^verbatim>\<open>null\<close> nor
  the empty string).
\<close>

record AskRequest =
  ask_question :: string
  ask_context :: "string option"
  ask_includedSiteSpaces :: "string list option"

definition askRequest :: "string option \<Rightarrow> string \<Rightarrow> AskRequest" where
  "askRequest siteSpaceId question =
     (let given = (case siteSpaceId of
                     None \<Rightarrow> None
                   | Some s \<Rightarrow> if s = [] then None else Some s)
      in \<lparr>ask_question = question, ask_context = given,
          ask_includedSiteSpaces = map_option (\<lambda>s. [s]) given\<rparr>)"

definition streamAskQuestion ::
  "(string \<Rightarrow> string \<Rightarrow> AskRequest \<Rightarrow> Chunk option list)
     \<Rightarrow> (string \<Rightarrow> error + RevisionPage list) \<Rightarrow> (RevisionPage list \<Rightarrow> RevisionPage \<Rightarrow> string)
     \<Rightarrow> string \<Rightarrow> string \<Rightarrow> string option \<Rightarrow> string
     \<Rightarrow> AskAnswerResult list \<times> error option \<times> AggState"
where
  "streamAskQuestion streamAskInSite getSpaceContentData pageHref orgId site siteSpaceId question =
     (let stream = streamAskInSite orgId site (askRequest siteSpaceId question)
      in consumeStream getSpaceContentData pageHref stream
           \<lparr>spaceData = Map.empty, trace = []\<rparr>)"

text \<open>
  Reading a trace: the spaces whose fetch was started, in order, and the number of
  fetches started and not yet settled at the end of a trace.
\<close>

fun fetched :: "FetchEvent list \<Rightarrow> string list" where
  "fetched [] = []"
| "fetched (FetchStart s # tr) = s # fetched tr"
| "fetched (FetchEnd s # tr) = fetched tr"

fun inFlight :: "FetchEvent list \<Rightarrow> int" where
  "inFlight [] = 0"
| "inFlight (FetchStart s # tr) = inFlight tr + 1"
| "inFlight (FetchEnd s # tr) = inFlight tr - 1"

text \<open>The spaces that the page-type sources of the non-empty chunks of a stream name.\<close>

fun sourceSpaces :: "SearchAIAnswerSource list \<Rightarrow> string list" where
  "sourceSpaces [] = []"
| "sourceSpaces (PageSource space pg # srcs) = space # sourceSpaces srcs"
| "sourceSpaces (OtherSource # srcs) = sourceSpaces srcs"

fun streamSpaces :: "Chunk option list \<Rightarrow> string list" where
  "streamSpaces [] = []"
| "streamSpaces (None # stream) = streamSpaces stream"
| "streamSpaces (Some chunk # stream) =
     sourceSpaces (answer_sources (chunk_answer chunk)) @ streamSpaces stream"


section \<open>Notions for the statements, and example inputs\<close>

subsection \<open>Page trees\<close>

text \<open>
  The tree of the specification's scenario, with a link added: the group ``guides''
  holds the document \<open>a\<close>, a link, and the group ``sub'' with the document \<open>b\<close>.
\<close>

definition docA :: RevisionPage where
  "docA = Document ''a'' ''intro'' ''Intro'' []"

definition docB :: RevisionPage where
  "docB = Document ''b'' ''intro/deep'' ''Deep'' []"

definition groupSub :: RevisionPage where
  "groupSub = Group ''sub'' ''guides/sub'' ''Sub'' [docB]"

definition groupGuides :: RevisionPage where
  "groupGuides =
     Group ''guides'' ''guides'' ''Guides'' [docA, Link ''l'' ''Elsewhere'', groupSub]"

definition exampleTree :: "RevisionPage list" where
  "exampleTree = [groupGuides]"

text \<open>A group without children that stands before a document.\<close>

definition emptyGroup :: RevisionPage where
  "emptyGroup = Group ''e'' ''empty'' ''Empty'' []"

definition deadEndTree :: "RevisionPage list" where
  "deadEndTree = [emptyGroup, docA]"

definition deadEndGroup :: RevisionPage where
  "deadEndGroup = Group ''g'' ''guides'' ''Guides'' [emptyGroup, docA]"

text \<open>
  Trees that break the data model's invariant: two documents with the identifier \<open>x\<close>;
  and the document \<open>a\<close> at two places, after a group that has its identifier.
\<close>

definition twinTree :: "RevisionPage list" where
  "twinTree =
     [Document ''x'' ''one'' ''One'' [], Document ''y'' ''two'' ''Two'' [],
      Document ''x'' ''three'' ''Three'' []]"

definition twinGroupTree :: "RevisionPage list" where
  "twinGroupTree =
     [Group ''top'' ''top'' ''Top'' [Group ''a'' ''hollow'' ''Hollow'' [], docA], docA]"

subsection \<open>Search\<close>

text \<open>
  For the statements about search. In a sectioned site the site-spaces are read section
  by section, each with its section; the display title of a site-space is the title of
  its section, or its own title when the section's title is empty.
\<close>

definition displayTitle :: "SiteSection \<Rightarrow> SiteSpace \<Rightarrow> string" where
  "displayTitle section siteSpace =
     (if section_title section \<noteq> [] then section_title section
      else space_title (siteSpace_space siteSpace))"

definition sectionPairs :: "SiteSection list \<Rightarrow> (SiteSection \<times> SiteSpace) list" where
  "sectionPairs secs = concat (map (\<lambda>sec. map (Pair sec) (section_siteSpaces sec)) secs)"

definition withTitle :: "SiteSection \<times> SiteSpace \<Rightarrow> SiteSpace" where
  "withTitle = (\<lambda>(sec, ss).
     ss\<lparr>siteSpace_space := (siteSpace_space ss)\<lparr>space_title := displayTitle sec ss\<rparr>\<rparr>)"

fun isPageResult :: "OrderedComputedResult \<Rightarrow> bool" where
  "isPageResult (ComputedPageResult i t h st) = True"
| "isPageResult (ComputedSectionResult i t h b) = False"

text \<open>
  A sectioned site for the search examples: the section ``API'' holds one site-space,
  whose space has the title ``Docs''; the backend finds one page in that space.
\<close>

definition exampleSiteSpace :: SiteSpace where
  "exampleSiteSpace =
     \<lparr>siteSpace_space =
        \<lparr>space_id = ''s1'', space_title = ''Docs'',
         space_urls_published = Some ''https://example.com/docs'',
         space_urls_app = ''https://app.example.com/s/s1''\<rparr>,
      siteSpace_urls_published = Some ''https://example.com/docs''\<rparr>"

definition exampleSection :: SiteSection where
  "exampleSection = \<lparr>section_title = ''API'', section_siteSpaces = [exampleSiteSpace]\<rparr>"

definition exampleItem :: SearchPageResult where
  "exampleItem =
     \<lparr>item_id = ''p1'', item_title = ''Intro'', item_path = ''/intro'', item_sections = None\<rparr>"

definition exampleApi :: Api where
  "exampleApi =
     \<lparr>api_searchSiteContent =
        (\<lambda>org site query scope cacheBust.
           Inr [\<lparr>spaceItem_id = ''s1'', spaceItem_pages = [exampleItem]\<rparr>]),
      api_getSiteData = (\<lambda>pointer. Inr (StructureSections [exampleSection]))\<rparr>"

definition exampleAbsoluteHref :: "string \<Rightarrow> string" where
  "exampleAbsoluteHref path' = ''/'' @ path'"

definition exampleArgs :: "string \<Rightarrow> SearchArgs" where
  "exampleArgs query =
     \<lparr>args_pointer = \<lparr>organizationId = ''org'', siteId = ''site''\<rparr>,
      args_query = query, args_scope = ScopeAll, args_cacheBust = None\<rparr>"

subsection \<open>Answers\<close>

text \<open>
  For the statements about answers. A trace is paired when every fetch that starts
  settles before the next one starts; the invariant of an aggregation is that the spaces
  fetched so far are pairwise different and are exactly the keys of the \<^verbatim>\<open>spaceData\<close>
  map, in a paired trace. A source is resolvable in a map when it is of type page, its
  space is a key of the map and its page identifier resolves in that space's pages.
\<close>

fun paired :: "FetchEvent list \<Rightarrow> bool" where
  "paired [] = True"
| "paired (FetchStart s # FetchEnd s' # tr) = (s = s' \<and> paired tr)"
| "paired (FetchStart s # tr) = False"
| "paired (FetchEnd s # tr) = False"

definition sessionInv :: "AggState \<Rightarrow> bool" where
  "sessionInv st =
     (distinct (fetched (trace st)) \<and> set (fetched (trace st)) = dom (spaceData st) \<and>
      paired (trace st))"

fun resolvable :: "(string \<rightharpoonup> RevisionPage list) \<Rightarrow> SearchAIAnswerSource \<Rightarrow> bool" where
  "resolvable cache (PageSource space pg) =
     (case cache space of
        None \<Rightarrow> False
      | Some pages \<Rightarrow> resolvePageId pages pg \<noteq> None)"
| "resolvable cache OtherSource = False"

text \<open>
  Answers for the examples: one whose only source is the page \<open>a\<close> of the space \<open>S\<close>, one
  whose only source is a page that \<open>S\<close> does not have, and one with four sources. The
  space \<open>S\<close> has the pages of the example tree; no other space can be fetched.
\<close>

definition exampleAnswer :: SearchAIAnswer where
  "exampleAnswer =
     \<lparr>answer_answer = Some (AnswerDocument ''doc''),
      answer_followupQuestions = [''What next?''],
      answer_sources = [PageSource ''S'' ''a'']\<rparr>"

definition danglingAnswer :: SearchAIAnswer where
  "danglingAnswer =
     \<lparr>answer_answer = Some (AnswerDocument ''doc''),
      answer_followupQuestions = [''What next?''],
      answer_sources = [PageSource ''S'' ''missing'']\<rparr>"

definition mixedAnswer :: SearchAIAnswer where
  "mixedAnswer =
     \<lparr>answer_answer = None,
      answer_followupQuestions = [],
      answer_sources =
        [PageSource ''S'' ''b'', OtherSource, PageSource ''S'' ''missing'',
         PageSource ''S'' ''a'']\<rparr>"

definition failingSpaceContent :: "string \<Rightarrow> error + RevisionPage list" where
  "failingSpaceContent spaceId = Inl (BackendFailure spaceId)"

definition exampleSpaceContent :: "string \<Rightarrow> error + RevisionPage list" where
  "exampleSpaceContent spaceId =
     (if spaceId = ''S'' then Inr exampleTree else Inl (BackendFailure spaceId))"

definition examplePageHref :: "RevisionPage list \<Rightarrow> RevisionPage \<Rightarrow> string" where
  "examplePageHref pages pg = ''/'' @ page_path pg"

definition newState :: AggState where
  "newState = \<lparr>spaceData = Map.empty, trace = []\<rparr>"

definition exampleStream :: "string \<Rightarrow> string \<Rightarrow> AskRequest \<Rightarrow> Chunk option list" where
  "exampleStream orgId site request =
     [Some \<lparr>chunk_answer = mixedAnswer\<rparr>, None, Some \<lparr>chunk_answer = exampleAnswer\<rparr>]"


section \<open>Properties of the page tree resolvers\<close>

subsection \<open>Every result is a document of the tree, with its own chain of ancestors\<close>

lemma map_page_docsWithAncestors: "map page (docsWithAncestors ps ancs) = flattenPages ps"
  by (induction ps ancs rule: docsWithAncestors.induct) simp_all

text \<open>
  What \<^const>\<open>resolveFirstDocument\<close> and \<^const>\<open>resolvePageDocument\<close> return, when they return
  something, is the first document in reading order, with its chain.
\<close>

lemma resolveFirst_hd:
  "resolveFirstDocument ps ancs = Some r \<longrightarrow>
     docsWithAncestors ps ancs \<noteq> [] \<and> r = hd (docsWithAncestors ps ancs)"
  "resolvePageDocument p ancs = Some r \<longrightarrow>
     docsWithAncestors [p] ancs \<noteq> [] \<and> r = hd (docsWithAncestors [p] ancs)"
  by (induction ps ancs and p ancs rule: resolveFirstDocument_resolvePageDocument.induct)
     (auto split: option.splits)

lemma resolveFirstDocument_mem:
  "resolveFirstDocument ps ancs = Some r \<Longrightarrow> r \<in> set (docsWithAncestors ps ancs)"
  using resolveFirst_hd(1)[of ps ancs r] by (metis hd_in_set)

lemma resolvePageDocument_mem:
  "resolvePageDocument p ancs = Some r \<Longrightarrow> r \<in> set (docsWithAncestors [p] ancs)"
  using resolveFirst_hd(2)[of p ancs r] by (metis hd_in_set)

lemma iteratePagesByPath_mem:
  "iteratePagesByPath pp ps ancs = Some r \<Longrightarrow> r \<in> set (docsWithAncestors ps ancs)"
proof (induction pp ps ancs rule: iteratePagesByPath.induct)
  case (4 pagePath i pa t cs ps ancs)
  then show ?case using resolveFirst_hd(2)[of "Group i pa t cs" ancs r]
    by (auto split: if_splits option.splits)
qed (auto split: if_splits option.splits)

lemma iteratePagesById_mem:
  "iteratePagesById pid ps ancs = Some r \<Longrightarrow> r \<in> set (docsWithAncestors ps ancs)"
proof (induction pid ps ancs rule: iteratePagesById.induct)
  case (4 pageId i pa t cs ps ancs)
  then show ?case using resolveFirst_hd(2)[of "Group i pa t cs" ancs r]
    by (auto split: if_splits option.splits)
qed (auto split: if_splits option.splits)

lemma resolvePagePath_mem:
  "resolvePagePath T pp = Some r \<Longrightarrow> r \<in> set (docsWithAncestors T [])"
  by (auto simp: resolvePagePath_def split: if_splits option.splits
      dest: resolveFirstDocument_mem iteratePagesByPath_mem)

lemma resolvePageId_mem:
  "resolvePageId T i = Some r \<Longrightarrow> r \<in> set (docsWithAncestors T [])"
  by (simp add: resolvePageId_def iteratePagesById_mem)

lemma docsWithAncestors_no_link:
  "r \<in> set (docsWithAncestors ps ancs) \<Longrightarrow>
     page_type (page r) = TypeDocument \<and>
     (\<forall>a\<in>set (ancestors r). a \<in> set ancs \<or> page_type a \<noteq> TypeLink)"
  by (induction ps ancs rule: docsWithAncestors.induct) fastforce+

lemma flattenPages_documents: "d \<in> set (flattenPages ps) \<Longrightarrow> page_type d = TypeDocument"
  by (induction ps rule: flattenPages.induct) auto

text \<open>
  When the documents of a tree have pairwise different identifiers, a document stands at
  one place of the tree only, so it has one chain of ancestors.
\<close>

lemma docsWithAncestors_unique:
  assumes "distinct (map page_id (flattenPages ps))"
    and "r1 \<in> set (docsWithAncestors ps ancs)" and "r2 \<in> set (docsWithAncestors ps ancs)"
    and "page r1 = page r2"
  shows "r1 = r2"
proof -
  have "distinct (map (page_id \<circ> page) (docsWithAncestors ps ancs))"
    using assms(1) by (simp flip: map_page_docsWithAncestors[of ps ancs])
  then have "inj_on (page_id \<circ> page) (set (docsWithAncestors ps ancs))"
    by (simp add: distinct_map)
  then show ?thesis
    by (rule inj_onD) (use assms(2-4) in simp_all)
qed

text \<open>
  The data model's invariant, identifiers unique over the whole tree, gives the
  hypothesis that the statements below need: the documents have different identifiers.
\<close>

lemma flattenPages_ids_subset: "page_id ` set (flattenPages ps) \<subseteq> set (allIds ps)"
  by (induction ps rule: flattenPages.induct) auto

lemma unique_ids_documents:
  "distinct (allIds ps) \<Longrightarrow> distinct (map page_id (flattenPages ps))"
proof (induction ps rule: flattenPages.induct)
  case (3 i pa t cs ps)
  then show ?case
    using flattenPages_ids_subset[of cs] flattenPages_ids_subset[of ps] by fastforce
next
  case (4 i pa t cs ps)
  then show ?case
    using flattenPages_ids_subset[of cs] flattenPages_ids_subset[of ps] by fastforce
qed simp_all

subsection \<open>Links\<close>

text \<open>
  Claim C9. For every tree and every query, a node of kind Link is never the page
  returned by \<^const>\<open>resolvePagePath\<close>, \<^const>\<open>resolvePageId\<close> or \<^const>\<open>resolvePageDocument\<close>, is
  never in a returned ancestor chain (for \<^const>\<open>resolvePageDocument\<close>: never among the
  ancestors it adds to the chain it was given), and is never in the flattened sequence
  of \<^const>\<open>flattenPages\<close> that \<^const>\<open>resolvePrevNextPages\<close> uses.
\<close>

theorem link_never_returned:
  "(resolvePagePath T pagePath = Some r \<longrightarrow>
      page_type (page r) \<noteq> TypeLink \<and> (\<forall>a\<in>set (ancestors r). page_type a \<noteq> TypeLink)) \<and>
   (resolvePageId T pageId = Some r \<longrightarrow>
      page_type (page r) \<noteq> TypeLink \<and> (\<forall>a\<in>set (ancestors r). page_type a \<noteq> TypeLink)) \<and>
   (resolvePageDocument p ancs = Some r \<longrightarrow>
      page_type (page r) \<noteq> TypeLink \<and>
      (\<forall>a\<in>set (ancestors r). a \<in> set ancs \<or> page_type a \<noteq> TypeLink)) \<and>
   (\<forall>d\<in>set (flattenPages T). page_type d \<noteq> TypeLink)"
proof (intro conjI impI ballI)
  fix d assume "d \<in> set (flattenPages T)"
  then show "page_type d \<noteq> TypeLink" by (simp add: flattenPages_documents)
next
  assume "resolvePagePath T pagePath = Some r"
  then have m: "r \<in> set (docsWithAncestors T [])" by (rule resolvePagePath_mem)
  from docsWithAncestors_no_link[OF m] show "page_type (page r) \<noteq> TypeLink" by simp
  fix a assume "a \<in> set (ancestors r)"
  with docsWithAncestors_no_link[OF m] show "page_type a \<noteq> TypeLink" by auto
next
  assume "resolvePageId T pageId = Some r"
  then have m: "r \<in> set (docsWithAncestors T [])" by (rule resolvePageId_mem)
  from docsWithAncestors_no_link[OF m] show "page_type (page r) \<noteq> TypeLink" by simp
  fix a assume "a \<in> set (ancestors r)"
  with docsWithAncestors_no_link[OF m] show "page_type a \<noteq> TypeLink" by auto
next
  assume "resolvePageDocument p ancs = Some r"
  then have m: "r \<in> set (docsWithAncestors [p] ancs)" by (rule resolvePageDocument_mem)
  from docsWithAncestors_no_link[OF m] show "page_type (page r) \<noteq> TypeLink" by simp
  fix a assume "a \<in> set (ancestors r)"
  with docsWithAncestors_no_link[OF m] show "a \<in> set ancs \<or> page_type a \<noteq> TypeLink" by auto
qed

lemmas example_defs = exampleTree_def groupGuides_def groupSub_def docA_def docB_def

theorem link_never_returned_witness:
  "resolvePagePath exampleTree ''intro/deep''
     = Some \<lparr>page = docB, ancestors = [groupGuides, groupSub]\<rparr> \<and>
   resolvePageId exampleTree ''sub''
     = Some \<lparr>page = docB, ancestors = [groupGuides, groupSub]\<rparr> \<and>
   resolvePageDocument groupGuides [] = Some \<lparr>page = docA, ancestors = [groupGuides]\<rparr> \<and>
   flattenPages exampleTree = [docA, docB] \<and>
   page_type docA \<noteq> TypeLink \<and> page_type docB \<noteq> TypeLink \<and>
   page_type groupGuides \<noteq> TypeLink \<and> page_type groupSub \<noteq> TypeLink"
  using link_never_returned[of exampleTree "''intro/deep''"
      "\<lparr>page = docB, ancestors = [groupGuides, groupSub]\<rparr>" "''sub''" groupGuides "[]"]
    link_never_returned[of exampleTree "''intro''"
      "\<lparr>page = docA, ancestors = [groupGuides]\<rparr>" "''a''" groupGuides "[]"]
  by (simp add: resolvePagePath_def resolvePageId_def example_defs)

subsection \<open>Identical ancestor chains by identifier and by path\<close>

text \<open>
  Claim C5. For every tree \<open>T\<close> (whose documents have pairwise different identifiers, as
  the data model requires of a tree) and every document \<open>D\<close> that
  \<open>resolvePageId T (id of D)\<close> and \<open>resolvePagePath T (path of D)\<close> both resolve to, the
  two resolvers return the same ancestor chain.
\<close>

theorem resolvers_same_ancestors:
  assumes "distinct (map page_id (flattenPages T))"
    and "resolvePageId T (page_id D) = Some byId"
    and "resolvePagePath T (page_path D) = Some byPath"
    and "page byId = D" and "page byPath = D"
  shows "ancestors byId = ancestors byPath"
proof -
  have "byId \<in> set (docsWithAncestors T [])"
    using assms(2) by (rule resolvePageId_mem)
  moreover have "byPath \<in> set (docsWithAncestors T [])"
    using assms(3) by (rule resolvePagePath_mem)
  ultimately have "byId = byPath"
    using assms(1,4,5) by (intro docsWithAncestors_unique[of T]) simp_all
  then show ?thesis by simp
qed

theorem resolvers_same_ancestors_witness:
  "distinct (map page_id (flattenPages exampleTree)) \<and>
   resolvePageId exampleTree (page_id docB)
     = Some \<lparr>page = docB, ancestors = [groupGuides, groupSub]\<rparr> \<and>
   resolvePagePath exampleTree (page_path docB)
     = Some \<lparr>page = docB, ancestors = [groupGuides, groupSub]\<rparr> \<and>
   ancestors \<lparr>page = docB, ancestors = [groupGuides, groupSub]\<rparr>
     = ancestors \<lparr>page = docB, ancestors = [groupGuides, groupSub]\<rparr>"
proof -
  let ?r = "\<lparr>page = docB, ancestors = [groupGuides, groupSub]\<rparr>"
  have d: "distinct (map page_id (flattenPages exampleTree))"
    by (simp add: example_defs)
  have i: "resolvePageId exampleTree (page_id docB) = Some ?r"
    by (simp add: resolvePageId_def example_defs)
  have p: "resolvePagePath exampleTree (page_path docB) = Some ?r"
    by (simp add: resolvePagePath_def example_defs)
  from resolvers_same_ancestors[OF d i p] d i p show ?thesis by simp
qed

text \<open>
  The hypothesis on the identifiers is needed: in a tree that has the document \<open>a\<close> twice
  and a group with the identifier of \<open>a\<close>, the two resolvers find \<open>a\<close> at different
  places.
\<close>

lemma same_ancestors_needs_unique_ids:
  "resolvePageId twinGroupTree (page_id docA) = Some \<lparr>page = docA, ancestors = []\<rparr> \<and>
   resolvePagePath twinGroupTree (page_path docA)
     = Some \<lparr>page = docA,
             ancestors = [Group ''top'' ''top'' ''Top''
                            [Group ''a'' ''hollow'' ''Hollow'' [], docA]]\<rparr>"
  by (simp add: resolvePageId_def resolvePagePath_def twinGroupTree_def docA_def)

subsection \<open>Previous and next\<close>

lemma findIndexFrom_distinct:
  "distinct (map f xs) \<Longrightarrow> i < length xs \<Longrightarrow>
     findIndexFrom k (\<lambda>p. f p = f (xs ! i)) xs = k + int i"
proof (induction xs arbitrary: i k)
  case Nil
  then show ?case by simp
next
  case (Cons x xs)
  show ?case
  proof (cases i)
    case 0
    then show ?thesis by simp
  next
    case (Suc j)
    with Cons.prems have "j < length xs" and "f x \<noteq> f (xs ! j)" by auto
    with Cons Suc show ?thesis by simp
  qed
qed

lemma findIndex_distinct:
  "distinct (map f xs) \<Longrightarrow> i < length xs \<Longrightarrow> findIndex (\<lambda>p. f p = f (xs ! i)) xs = int i"
  by (simp add: findIndex_def findIndexFrom_distinct)

lemma resolvePrevNextPages_at:
  assumes "distinct (map page_id (flattenPages T))" and "i < length (flattenPages T)"
  shows "resolvePrevNextPages T (flattenPages T ! i) =
           \<lparr>previous = arrayAt (flattenPages T) (int i - 1),
            nextPage = arrayAt (flattenPages T) (int i + 1)\<rparr>"
  using findIndex_distinct[OF assms] by (simp add: resolvePrevNextPages_def Let_def)

text \<open>
  Claim C4. For every tree \<open>T\<close> (whose documents have pairwise different identifiers, as
  the data model requires of a tree) and every document \<open>D\<close> in \<open>T\<close>: if the next page of
  \<open>D\<close> is \<open>E\<close> then the previous page of \<open>E\<close> is \<open>D\<close>, and if the previous page of \<open>D\<close> is
  \<open>E\<close> then the next page of \<open>E\<close> is \<open>D\<close>.
\<close>

theorem prev_next_consistent:
  assumes "distinct (map page_id (flattenPages T))" and "D \<in> set (flattenPages T)"
  shows "(nextPage (resolvePrevNextPages T D) = Some E \<longrightarrow>
            previous (resolvePrevNextPages T E) = Some D) \<and>
         (previous (resolvePrevNextPages T D) = Some E \<longrightarrow>
            nextPage (resolvePrevNextPages T E) = Some D)"
proof -
  from assms(2) obtain i where i: "i < length (flattenPages T)" and D: "D = flattenPages T ! i"
    by (auto simp: in_set_conv_nth)
  note at = resolvePrevNextPages_at[OF assms(1)]
  show ?thesis
  proof (intro conjI impI)
    assume "nextPage (resolvePrevNextPages T D) = Some E"
    with at[OF i] D have n: "arrayAt (flattenPages T) (int i + 1) = Some E" by simp
    then have j: "Suc i < length (flattenPages T)" and E: "E = flattenPages T ! Suc i"
      by (auto simp: arrayAt_def nat_add_distrib split: if_splits)
    from at[OF j] E i D show "previous (resolvePrevNextPages T E) = Some D"
      by (simp add: arrayAt_def)
  next
    assume "previous (resolvePrevNextPages T D) = Some E"
    with at[OF i] D have n: "arrayAt (flattenPages T) (int i - 1) = Some E" by simp
    then obtain j where ij: "i = Suc j" and E: "E = flattenPages T ! j"
      by (cases i) (auto simp: arrayAt_def split: if_splits)
    with i have j: "j < length (flattenPages T)" by simp
    from at[OF j] E i D ij show "nextPage (resolvePrevNextPages T E) = Some D"
      by (simp add: arrayAt_def nat_add_distrib)
  qed
qed

theorem prev_next_consistent_witness:
  "distinct (map page_id (flattenPages exampleTree)) \<and> docA \<in> set (flattenPages exampleTree) \<and>
   docB \<in> set (flattenPages exampleTree) \<and>
   nextPage (resolvePrevNextPages exampleTree docA) = Some docB \<and>
   previous (resolvePrevNextPages exampleTree docB) = Some docA \<and>
   previous (resolvePrevNextPages exampleTree docA) = None \<and>
   nextPage (resolvePrevNextPages exampleTree docB) = None"
proof -
  have d: "distinct (map page_id (flattenPages exampleTree))"
    by (simp add: example_defs)
  have a: "docA \<in> set (flattenPages exampleTree)" and b: "docB \<in> set (flattenPages exampleTree)"
    by (simp_all add: example_defs)
  have n: "nextPage (resolvePrevNextPages exampleTree docA) = Some docB"
    by (simp add: resolvePrevNextPages_def findIndex_def arrayAt_def example_defs)
  have p: "previous (resolvePrevNextPages exampleTree docA) = None"
    by (simp add: resolvePrevNextPages_def findIndex_def arrayAt_def example_defs)
  have q: "nextPage (resolvePrevNextPages exampleTree docB) = None"
    by (simp add: resolvePrevNextPages_def findIndex_def arrayAt_def example_defs)
  from prev_next_consistent[OF d a, of docB] prev_next_consistent[OF d b, of docA] n
  have "previous (resolvePrevNextPages exampleTree docB) = Some docA" by simp
  with d a b n p q show ?thesis by simp
qed

text \<open>
  The hypothesis on the identifiers is needed: with two documents of one identifier, the
  second is looked up at the place of the first.
\<close>

lemma prev_next_needs_unique_ids:
  "nextPage (resolvePrevNextPages twinTree (Document ''x'' ''three'' ''Three'' []))
     = Some (Document ''y'' ''two'' ''Two'' []) \<and>
   previous (resolvePrevNextPages twinTree (Document ''y'' ''two'' ''Two'' []))
     = Some (Document ''x'' ''one'' ''One'' [])"
  by (simp add: resolvePrevNextPages_def findIndex_def arrayAt_def twinTree_def)

subsection \<open>The first document\<close>

text \<open>
  What holds of the empty path: a result is the first document of the flattened
  sequence, and an empty sequence gives no result.
\<close>

lemma empty_path_result:
  assumes "resolvePagePath T [] = Some r"
  shows "flattenPages T \<noteq> [] \<and> page r = hd (flattenPages T)"
proof -
  from assms have "resolveFirstDocument T [] = Some r"
    by (simp add: resolvePagePath_def split: option.splits)
  with resolveFirst_hd(1)[of T "[]" r]
  have "docsWithAncestors T [] \<noteq> []" and "r = hd (docsWithAncestors T [])" by simp_all
  then show ?thesis
    using map_page_docsWithAncestors[of T "[]"] by (metis hd_map map_is_Nil_conv)
qed

lemma empty_path_empty_sequence:
  "flattenPages T = [] \<Longrightarrow> resolvePagePath T [] = None"
  using empty_path_result[of T] by (cases "resolvePagePath T []") auto

text \<open>
  Claim C1. For every tree \<open>T\<close>, resolving the empty path in \<open>T\<close> returns the first element
  of \<open>flattenPages T\<close>, and returns nothing iff that sequence is empty. The code does not
  do this: on a tree whose first page is a group without children, followed by the
  document \<open>a\<close>, the flattened sequence is \<open>[a]\<close> and the resolver returns nothing.
\<close>

theorem empty_path_skips_document_after_empty_group:
  "flattenPages deadEndTree = [docA] \<and> resolvePagePath deadEndTree [] = None"
  by (simp add: resolvePagePath_def deadEndTree_def emptyGroup_def docA_def)

text \<open>
  What holds of a matched group: a result is the first document below the group, its
  ancestors are the given ones, the group, and the groups between the group and the
  document; a group with no document below it gives no result.
\<close>

lemma added_ancestors_are_groups:
  "resolveFirstDocument ps ancs = Some r \<longrightarrow>
     (\<exists>between. ancestors r = ancs @ between \<and> list_all (\<lambda>a. page_type a = TypeGroup) between)"
  "resolvePageDocument p ancs = Some r \<longrightarrow>
     (\<exists>between. ancestors r = ancs @ between \<and> list_all (\<lambda>a. page_type a = TypeGroup) between)"
  by (induction ps ancs and p ancs rule: resolveFirstDocument_resolvePageDocument.induct)
     (auto split: option.splits)

lemma matched_group_result:
  assumes "resolvePageDocument (Group i pa t cs) ancs = Some r"
  shows "flattenPages cs \<noteq> [] \<and> page r = hd (flattenPages cs) \<and>
         (\<exists>between. ancestors r = ancs @ Group i pa t cs # between \<and>
                    list_all (\<lambda>a. page_type a = TypeGroup) between)"
proof -
  from assms have f: "resolveFirstDocument cs (ancs @ [Group i pa t cs]) = Some r"
    by (simp split: option.splits)
  with resolveFirst_hd(1)[of cs "ancs @ [Group i pa t cs]" r]
  have "docsWithAncestors cs (ancs @ [Group i pa t cs]) \<noteq> []"
    and "r = hd (docsWithAncestors cs (ancs @ [Group i pa t cs]))" by simp_all
  then have "flattenPages cs \<noteq> [] \<and> page r = hd (flattenPages cs)"
    using map_page_docsWithAncestors[of cs "ancs @ [Group i pa t cs]"]
    by (metis hd_map map_is_Nil_conv)
  moreover from added_ancestors_are_groups(1)[of cs "ancs @ [Group i pa t cs]" r] f
  have "\<exists>between. ancestors r = ancs @ Group i pa t cs # between \<and>
                    list_all (\<lambda>a. page_type a = TypeGroup) between" by simp
  ultimately show ?thesis by simp
qed

lemma matched_group_without_documents:
  "flattenPages cs = [] \<Longrightarrow> resolvePageDocument (Group i pa t cs) ancs = None"
  using matched_group_result[of i pa t cs ancs]
  by (cases "resolvePageDocument (Group i pa t cs) ancs") auto

text \<open>
  Claim C6. A matched group resolves to its first document descendant in leftmost
  depth-first order, with the group (and each group between) appended to the ancestor
  chain; a link, or a group with no document descendant, resolves to nothing. The code
  does not do the first: the group ``guides'' below has the document \<open>a\<close> as its first
  (and only) document descendant, and \<^const>\<open>resolvePageDocument\<close>, like both resolvers
  when they match the group, returns nothing.
\<close>

theorem matched_group_skips_document_after_empty_group:
  "flattenPages [deadEndGroup] = [docA] \<and>
   resolvePageDocument deadEndGroup [] = None \<and>
   resolvePagePath [deadEndGroup] ''guides'' = None \<and>
   resolvePageId [deadEndGroup] ''g'' = None"
  by (simp add: resolvePagePath_def resolvePageId_def deadEndGroup_def emptyGroup_def docA_def)


section \<open>Properties of site search\<close>

text \<open>
  Claim C8. For every query string of length at most 1, \<^const>\<open>searchSiteContent\<close> returns
  the empty result list and makes no call on the backend: neither the search nor the
  fetch of the site's structure.
\<close>

theorem short_query_no_backend:
  "length (args_query args) \<le> 1 \<Longrightarrow> searchSiteContent api absoluteHref args = (Inr [], [])"
  by (simp add: searchSiteContent_def Let_def)

theorem short_query_no_backend_witness:
  "length (args_query (exampleArgs ''x'')) \<le> 1 \<and>
   searchSiteContent exampleApi exampleAbsoluteHref (exampleArgs ''x'') = (Inr [], []) \<and>
   searchSiteContent exampleApi exampleAbsoluteHref (exampleArgs []) = (Inr [], [])"
  using short_query_no_backend[of "exampleArgs ''x''" exampleApi exampleAbsoluteHref]
    short_query_no_backend[of "exampleArgs []" exampleApi exampleAbsoluteHref]
  by (simp add: exampleArgs_def)

subsection \<open>Display titles in a sectioned site\<close>

lemma foldl_append_concat: "foldl (\<lambda>prev x. prev @ f x) acc xs = acc @ concat (map f xs)"
  by (induction xs arbitrary: acc) simp_all

lemma structureSiteSpaces_sections:
  "structureSiteSpaces (StructureSections secs) = map withTitle (sectionPairs secs)"
  by (simp add: structureSiteSpaces_def foldl_append_concat sectionPairs_def map_concat
      sectionSiteSpaces_def withTitle_def displayTitle_def comp_def)

lemma find_map: "find P (map f xs) = map_option f (find (P \<circ> f) xs)"
  by (induction xs) simp_all

lemma find_structureSiteSpaces:
  "find (\<lambda>siteSpace. space_id (siteSpace_space siteSpace) = sid)
     (structureSiteSpaces (StructureSections secs))
   = map_option withTitle
       (find (\<lambda>(sec, ss). space_id (siteSpace_space ss) = sid) (sectionPairs secs))"
  by (simp add: structureSiteSpaces_sections find_map comp_def withTitle_def case_prod_unfold)

lemma pageTitles_transformSitePageResult:
  "map spaceTitle (filter isPageResult (transformSitePageResult absoluteHref item siteSpace))
     = [map_option (\<lambda>s. space_title (siteSpace_space s)) siteSpace]"
  by (simp add: transformSitePageResult_def transformSectionsAndPage_def Let_def
      filter_map comp_def option.map_comp split: option.splits)

text \<open>
  Claim C2, as stated: in a sectioned site the section's title replaces a site-space's
  title only when the site-space has no title of its own, and a site-space with a title
  keeps it. The code does otherwise: the site-space below has the title ``Docs'', its
  section the title ``API'', and the page found in it is shown under ``API''.
\<close>

theorem own_title_replaced_by_section_title:
  "space_title (siteSpace_space exampleSiteSpace) = ''Docs'' \<and>
   map (\<lambda>s. space_title (siteSpace_space s))
     (structureSiteSpaces (StructureSections [exampleSection])) = [''API''] \<and>
   fst (searchSiteContent exampleApi exampleAbsoluteHref (exampleArgs ''intro''))
     = Inr [ComputedPageResult ''p1'' ''Intro'' ''https://example.com/docs/intro''
              (Some ''API'')]"
  by (simp add: searchSiteContent_def Let_def structureSiteSpaces_def sectionSiteSpaces_def
      transformSitePageResult_def transformSectionsAndPage_def getURL_def needsStructure_def
      exampleApi_def exampleArgs_def exampleSection_def exampleSiteSpace_def exampleItem_def)

text \<open>
  Claim C2, amended. In a search over a sectioned site, the space title of every page
  record is the display title of the first site-space (sections in order, site-spaces in
  order within a section) whose space is the one the page was found in: the title of
  that site-space's section whenever the section's title is not empty, whether or not
  the site-space has a title of its own, and the site-space's own title only when the
  section's title is empty. A page found in a space that no site-space has gets no space
  title.
\<close>

theorem section_title_is_display_title:
  assumes "1 < length (args_query args)" and "needsStructure (args_scope args)"
    and "api_searchSiteContent api (organizationId (args_pointer args))
           (siteId (args_pointer args)) (args_query args) (args_scope args)
           (args_cacheBust args) = Inr items"
    and "api_getSiteData api (args_pointer args) = Inr (StructureSections secs)"
  shows "\<exists>results.
           fst (searchSiteContent api absoluteHref args) = Inr results \<and>
           map spaceTitle (filter isPageResult results) =
             concat (map (\<lambda>spaceItem.
                       map (\<lambda>item.
                              map_option (\<lambda>(sec, ss). displayTitle sec ss)
                                (find (\<lambda>(sec, ss).
                                         space_id (siteSpace_space ss) = spaceItem_id spaceItem)
                                   (sectionPairs secs)))
                         (spaceItem_pages spaceItem)) items)"
proof -
  have t: "map_option (\<lambda>s. space_title (siteSpace_space s)) (map_option withTitle p)
             = map_option (\<lambda>(sec, ss). displayTitle sec ss) p" for p
    by (cases p) (auto simp: withTitle_def)
  have inner: "map spaceTitle (filter isPageResult (concat (map (\<lambda>item.
                  transformSitePageResult absoluteHref item s) pgs)))
               = map (\<lambda>item. map_option (\<lambda>s. space_title (siteSpace_space s)) s) pgs" for s pgs
    by (induction pgs) (simp_all add: pageTitles_transformSitePageResult)
  have outer: "map spaceTitle (filter isPageResult (concat (concat (map (\<lambda>spaceItem.
                  map (\<lambda>item. transformSitePageResult absoluteHref item (f spaceItem))
                    (spaceItem_pages spaceItem)) its))))
               = concat (map (\<lambda>spaceItem. map (\<lambda>item.
                    map_option (\<lambda>s. space_title (siteSpace_space s)) (f spaceItem))
                      (spaceItem_pages spaceItem)) its)" for f its
    by (induction its) (simp_all add: inner)
  show ?thesis
    using assms
    by (simp add: searchSiteContent_def Let_def outer find_structureSiteSpaces t)
qed

theorem section_title_is_display_title_witness:
  "1 < length (args_query (exampleArgs ''intro'')) \<and>
   needsStructure (args_scope (exampleArgs ''intro'')) \<and>
   api_getSiteData exampleApi (args_pointer (exampleArgs ''intro''))
     = Inr (StructureSections [exampleSection]) \<and>
   (\<exists>results.
      fst (searchSiteContent exampleApi exampleAbsoluteHref (exampleArgs ''intro''))
        = Inr results \<and>
      map spaceTitle (filter isPageResult results) = [Some ''API''])"
proof -
  let ?args = "exampleArgs ''intro''"
  let ?items = "[\<lparr>spaceItem_id = ''s1'', spaceItem_pages = [exampleItem]\<rparr>]"
  have q: "1 < length (args_query ?args)" by (simp add: exampleArgs_def)
  have n: "needsStructure (args_scope ?args)" by (simp add: exampleArgs_def needsStructure_def)
  have s: "api_searchSiteContent exampleApi (organizationId (args_pointer ?args))
             (siteId (args_pointer ?args)) (args_query ?args) (args_scope ?args)
             (args_cacheBust ?args) = Inr ?items"
    by (simp add: exampleApi_def)
  have d: "api_getSiteData exampleApi (args_pointer ?args)
             = Inr (StructureSections [exampleSection])"
    by (simp add: exampleApi_def)
  from section_title_is_display_title[OF q n s d, of exampleAbsoluteHref] q n d
  show ?thesis
    by (simp add: sectionPairs_def displayTitle_def exampleSection_def exampleSiteSpace_def)
qed



section \<open>Properties of the streamed answers\<close>

lemmas answer_simps = transformAnswer_def referencedSpaces_def setAdd_def answerSource_def
  resolvePageId_def Let_def

subsection \<open>A failed fetch\<close>

text \<open>
  Claim C3, as stated: when the only source of a chunk is a page of a space whose fetch
  fails, \<^const>\<open>transformAnswer\<close> still returns a result, with no sources and with the
  follow-up questions and the body of the chunk. The code does otherwise: nothing
  catches the rejection of \<^verbatim>\<open>api.getSpaceContentData\<close>, so the whole call fails with it.
\<close>

theorem failed_fetch_fails_whole_answer:
  "answer_sources exampleAnswer = [PageSource ''S'' ''a''] \<and>
   failingSpaceContent ''S'' = Inl (BackendFailure ''S'') \<and>
   fst (transformAnswer failingSpaceContent examplePageHref exampleAnswer newState)
     = Inl (BackendFailure ''S'')"
  by (simp add: answer_simps exampleAnswer_def failingSpaceContent_def newState_def)

text \<open>
  Claim C3, amended. For a chunk whose only source is a page of a space \<open>S\<close> that is not
  yet in the \<^verbatim>\<open>spaceData\<close> map: when the fetch of \<open>S\<close> fails, \<^const>\<open>transformAnswer\<close> fails
  with the error of the fetch and returns no result; when the fetch succeeds and the
  page identifier does not resolve in the pages of \<open>S\<close>, the result has an empty list of
  sources, and its follow-up questions and body are those of the chunk.
\<close>

theorem single_source_fetch_outcome:
  assumes "answer_sources answer = [PageSource S pg]" and "spaceData st S = None"
  shows "(\<forall>e. get S = Inl e \<longrightarrow> fst (transformAnswer get href answer st) = Inl e) \<and>
         (\<forall>pages. get S = Inr pages \<and> resolvePageId pages pg = None \<longrightarrow>
            fst (transformAnswer get href answer st) =
              Inr \<lparr>body = (case answer_answer answer of
                             Some (AnswerDocument document) \<Rightarrow> Some (DocumentView document)
                           | Some (AnswerMarkdown other) \<Rightarrow> None
                           | None \<Rightarrow> None),
                   followupQuestions = answer_followupQuestions answer,
                   sources = []\<rparr>)"
  using assms
  by (auto simp: transformAnswer_def referencedSpaces_def setAdd_def answerSource_def Let_def)

theorem single_source_fetch_outcome_witness:
  "answer_sources danglingAnswer = [PageSource ''S'' ''missing''] \<and>
   spaceData newState ''S'' = None \<and>
   failingSpaceContent ''S'' = Inl (BackendFailure ''S'') \<and>
   fst (transformAnswer failingSpaceContent examplePageHref danglingAnswer newState)
     = Inl (BackendFailure ''S'') \<and>
   exampleSpaceContent ''S'' = Inr exampleTree \<and>
   resolvePageId exampleTree ''missing'' = None \<and>
   fst (transformAnswer exampleSpaceContent examplePageHref danglingAnswer newState)
     = Inr \<lparr>body = Some (DocumentView ''doc''), followupQuestions = [''What next?''],
            sources = []\<rparr>"
proof -
  have a: "answer_sources danglingAnswer = [PageSource ''S'' ''missing'']"
    by (simp add: danglingAnswer_def)
  have c: "spaceData newState ''S'' = None" by (simp add: newState_def)
  have f: "failingSpaceContent ''S'' = Inl (BackendFailure ''S'')"
    by (simp add: failingSpaceContent_def)
  have g: "exampleSpaceContent ''S'' = Inr exampleTree" by (simp add: exampleSpaceContent_def)
  have r: "resolvePageId exampleTree ''missing'' = None"
    by (simp add: resolvePageId_def example_defs)
  from single_source_fetch_outcome[OF a c, of failingSpaceContent examplePageHref]
    single_source_fetch_outcome[OF a c, of exampleSpaceContent examplePageHref]
    a c f g r
  show ?thesis by (simp add: danglingAnswer_def)
qed

subsection \<open>The sources of a result\<close>

lemma filterOutNullable_map:
  "filterOutNullable (map f xs) = map (\<lambda>x. the (f x)) (filter (\<lambda>x. f x \<noteq> None) xs)"
  by (induction xs) (auto split: option.splits)

lemma answerSource_resolvable: "(answerSource href cache source \<noteq> None) = resolvable cache source"
  by (cases source) (auto simp: answerSource_def split: option.splits)

text \<open>
  Claim C10. For every chunk that \<^const>\<open>transformAnswer\<close> turns into a result, the sources
  of the result are, in the same order, the sources of the chunk that are of type page
  and whose page identifier resolves in the pages that the \<^verbatim>\<open>spaceData\<close> map holds for
  their space (each with that page's identifier, title and link); sources of another
  type, and page sources that do not resolve, do not appear.
\<close>

theorem transformAnswer_sources:
  assumes "transformAnswer get href answer st = (Inr res, st')"
  shows "list_all2
           (\<lambda>out source.
              \<exists>pages found.
                spaceData st' (source_space source) = Some pages \<and>
                resolvePageId pages (source_page source) = Some found \<and>
                out = \<lparr>ask_id = source_page source, ask_title = page_title (page found),
                       ask_href = href pages (page found)\<rparr>)
           (sources res) (filter (resolvable (spaceData st')) (answer_sources answer)) \<and>
         map ask_id (sources res)
           = map source_page (filter (resolvable (spaceData st')) (answer_sources answer))"
proof -
  from assms have res:
    "sources res = filterOutNullable (map (answerSource href (spaceData st')) (answer_sources answer))"
    by (auto simp: transformAnswer_def Let_def split: prod.splits option.splits)
  have one: "resolvable (spaceData st') source \<Longrightarrow>
     \<exists>pages found.
        spaceData st' (source_space source) = Some pages \<and>
        resolvePageId pages (source_page source) = Some found \<and>
        the (answerSource href (spaceData st') source)
          = \<lparr>ask_id = source_page source, ask_title = page_title (page found),
             ask_href = href pages (page found)\<rparr>" for source
    by (cases source) (auto simp: answerSource_def split: option.splits)
  then have id: "resolvable (spaceData st') source \<Longrightarrow>
     ask_id (the (answerSource href (spaceData st') source)) = source_page source" for source
    by fastforce
  have "list_all2
           (\<lambda>out source.
              \<exists>pages found.
                spaceData st' (source_space source) = Some pages \<and>
                resolvePageId pages (source_page source) = Some found \<and>
                out = \<lparr>ask_id = source_page source, ask_title = page_title (page found),
                       ask_href = href pages (page found)\<rparr>)
           (sources res) (filter (resolvable (spaceData st')) (answer_sources answer))"
    unfolding res filterOutNullable_map answerSource_resolvable list_all2_map1 list_all2_same
  proof (intro ballI)
    fix source assume "source \<in> set (filter (resolvable (spaceData st')) (answer_sources answer))"
    then have "resolvable (spaceData st') source" by simp
    then show "\<exists>pages found.
        spaceData st' (source_space source) = Some pages \<and>
        resolvePageId pages (source_page source) = Some found \<and>
        the (answerSource href (spaceData st') source)
          = \<lparr>ask_id = source_page source, ask_title = page_title (page found),
             ask_href = href pages (page found)\<rparr>" by (rule one)
  qed
  moreover have "map ask_id (sources res)
           = map source_page (filter (resolvable (spaceData st')) (answer_sources answer))"
    unfolding res filterOutNullable_map answerSource_resolvable
    by (simp add: id)
  ultimately show ?thesis by simp
qed

theorem transformAnswer_sources_witness:
  "transformAnswer exampleSpaceContent examplePageHref mixedAnswer newState
     = (Inr \<lparr>body = None, followupQuestions = [],
             sources = [\<lparr>ask_id = ''b'', ask_title = ''Deep'', ask_href = ''/intro/deep''\<rparr>,
                        \<lparr>ask_id = ''a'', ask_title = ''Intro'', ask_href = ''/intro''\<rparr>]\<rparr>,
        \<lparr>spaceData = [''S'' \<mapsto> exampleTree], trace = [FetchStart ''S'', FetchEnd ''S'']\<rparr>) \<and>
   filter (resolvable [''S'' \<mapsto> exampleTree]) (answer_sources mixedAnswer)
     = [PageSource ''S'' ''b'', PageSource ''S'' ''a'']"
proof -
  have h: "transformAnswer exampleSpaceContent examplePageHref mixedAnswer newState
     = (Inr \<lparr>body = None, followupQuestions = [],
             sources = [\<lparr>ask_id = ''b'', ask_title = ''Deep'', ask_href = ''/intro/deep''\<rparr>,
                        \<lparr>ask_id = ''a'', ask_title = ''Intro'', ask_href = ''/intro''\<rparr>]\<rparr>,
        \<lparr>spaceData = [''S'' \<mapsto> exampleTree], trace = [FetchStart ''S'', FetchEnd ''S'']\<rparr>)"
    by (simp add: answer_simps mixedAnswer_def exampleSpaceContent_def examplePageHref_def
        newState_def example_defs)
  have f: "filter (resolvable [''S'' \<mapsto> exampleTree]) (answer_sources mixedAnswer)
     = [PageSource ''S'' ''b'', PageSource ''S'' ''a'']"
    by (simp add: mixedAnswer_def resolvePageId_def example_defs)
  from transformAnswer_sources[OF h] h f show ?thesis by simp
qed

subsection \<open>One fetch for each space\<close>

lemma fetched_append: "fetched (a @ b) = fetched a @ fetched b"
  by (induction a rule: fetched.induct) simp_all

lemma paired_append: "paired a \<Longrightarrow> paired (a @ b) = paired b"
  by (induction a rule: paired.induct) simp_all

lemma inFlight_paired:
  "paired tr \<Longrightarrow> 0 \<le> inFlight (take n tr) \<and> inFlight (take n tr) \<le> 1"
proof (induction tr arbitrary: n rule: paired.induct)
  case (2 s s' tr)
  show ?case
  proof (cases n)
    case 0
    then show ?thesis by simp
  next
    case (Suc m)
    show ?thesis
    proof (cases m)
      case 0
      with Suc show ?thesis by simp
    next
      case (Suc k)
      with \<open>n = Suc m\<close> 2 show ?thesis by simp
    qed
  qed
qed simp_all

lemma count_list_distinct:
  "distinct xs \<Longrightarrow> count_list xs x = (if x \<in> set xs then 1 else 0)"
  by (induction xs) auto

lemma set_foldl_setAdd:
  "set (foldl (\<lambda>s source. case source of OtherSource \<Rightarrow> s | PageSource space pg \<Rightarrow> setAdd s space)
          acc srcs) = set acc \<union> set (sourceSpaces srcs)"
  by (induction srcs arbitrary: acc rule: sourceSpaces.induct) (auto simp: setAdd_def)

lemma set_referencedSpaces: "set (referencedSpaces srcs) = set (sourceSpaces srcs)"
  by (simp add: referencedSpaces_def set_foldl_setAdd)

lemma sessionInv_step:
  assumes "sessionInv st" and "spaceData st s = None"
  shows "sessionInv (st\<lparr>spaceData := (spaceData st)(s \<mapsto> pages),
                        trace := trace st @ [FetchStart s, FetchEnd s]\<rparr>)"
proof -
  from assms have "s \<notin> set (fetched (trace st))" by (auto simp: sessionInv_def)
  with assms(1) show ?thesis
    by (simp add: sessionInv_def fetched_append paired_append)
qed

lemma pMapSpaces_inv:
  "sessionInv st \<Longrightarrow> pMapSpaces get xs st = (r, st') \<Longrightarrow>
     distinct (fetched (trace st')) \<and> paired (trace st') \<and>
     set (fetched (trace st')) \<subseteq> set (fetched (trace st)) \<union> set xs \<and>
     (r = None \<longrightarrow> sessionInv st' \<and> dom (spaceData st') = dom (spaceData st) \<union> set xs)"
proof (induction get xs st rule: pMapSpaces.induct)
  case (1 get st)
  then show ?case by (auto simp: sessionInv_def)
next
  case (2 get spaceId rest st)
  show ?case
  proof (cases "spaceData st spaceId \<noteq> None")
    case True
    with 2 show ?thesis by auto
  next
    case False
    then have none: "spaceData st spaceId = None" by simp
    show ?thesis
    proof (cases "get spaceId")
      case (Inl e)
      from 2(3) none have "spaceId \<notin> set (fetched (trace st))" by (auto simp: sessionInv_def)
      moreover from 2(4) none Inl
      have "r = Some e" and "st' = st\<lparr>trace := trace st @ [FetchStart spaceId, FetchEnd spaceId]\<rparr>"
        by simp_all
      ultimately show ?thesis using 2(3)
        by (auto simp: sessionInv_def fetched_append paired_append)
    next
      case (Inr pages)
      let ?st1 = "st\<lparr>spaceData := (spaceData st)(spaceId \<mapsto> pages),
                      trace := trace st @ [FetchStart spaceId, FetchEnd spaceId]\<rparr>"
      have inv1: "sessionInv ?st1" using 2(3) none by (rule sessionInv_step)
      have run: "pMapSpaces get rest ?st1 = (r, st')" using 2(4) none Inr by simp
      from 2(2)[OF False Inr inv1 run] show ?thesis
        by (auto simp: fetched_append)
    qed
  qed
qed

lemma transformAnswer_inv:
  assumes "sessionInv st" and "transformAnswer get href answer st = (r, st')"
  shows "distinct (fetched (trace st')) \<and> paired (trace st') \<and>
         set (fetched (trace st')) \<subseteq> set (fetched (trace st)) \<union> set (sourceSpaces (answer_sources answer)) \<and>
         (\<forall>res. r = Inr res \<longrightarrow>
            sessionInv st' \<and>
            dom (spaceData st') = dom (spaceData st) \<union> set (sourceSpaces (answer_sources answer)))"
proof -
  obtain e st1 where p: "pMapSpaces get (referencedSpaces (answer_sources answer)) st = (e, st1)"
    by (cases "pMapSpaces get (referencedSpaces (answer_sources answer)) st") auto
  with assms(2) have st': "st' = st1" and r: "\<And>res. r = Inr res \<Longrightarrow> e = None"
    by (auto simp: transformAnswer_def Let_def split: option.splits)
  from pMapSpaces_inv[OF assms(1) p] show ?thesis
    using st' r by (auto simp: set_referencedSpaces)
qed

lemma consumeStream_inv:
  "sessionInv st \<Longrightarrow> consumeStream get href stream st = (ys, err, st') \<Longrightarrow>
     distinct (fetched (trace st')) \<and> paired (trace st') \<and>
     set (fetched (trace st')) \<subseteq> set (fetched (trace st)) \<union> set (streamSpaces stream) \<and>
     (err = None \<longrightarrow>
        set (fetched (trace st')) = set (fetched (trace st)) \<union> set (streamSpaces stream))"
proof (induction get href stream st arbitrary: ys err st' rule: consumeStream.induct)
  case (1 get href st)
  then show ?case by (auto simp: sessionInv_def)
next
  case (2 get href stream st)
  then show ?case by simp
next
  case (3 get href chunk stream st)
  obtain r st1 where t: "transformAnswer get href (chunk_answer chunk) st = (r, st1)"
    by (cases "transformAnswer get href (chunk_answer chunk) st") auto
  note ti = transformAnswer_inv[OF 3(2) t]
  show ?case
  proof (cases r)
    case (Inl e)
    with 3(3) t have "st' = st1" and "err = Some e" by auto
    with ti show ?thesis by auto
  next
    case (Inr encoded)
    obtain ys1 err1 st2 where c: "consumeStream get href stream st1 = (ys1, err1, st2)"
      by (cases "consumeStream get href stream st1") auto
    with 3(3) t Inr have eq: "st' = st2" "err = err1" by auto
    from ti Inr have inv1: "sessionInv st1"
      and dom1: "dom (spaceData st1) = dom (spaceData st) \<union> set (sourceSpaces (answer_sources (chunk_answer chunk)))"
      by auto
    from inv1 dom1 3(2) have f1: "set (fetched (trace st1)) = set (fetched (trace st)) \<union> set (sourceSpaces (answer_sources (chunk_answer chunk)))"
      by (simp add: sessionInv_def)
    from 3(1)[OF t[symmetric] Inr inv1 c] eq f1 show ?thesis
      by auto
  qed
qed

text \<open>
  Claim C7. Within one call of \<^const>\<open>streamAskQuestion\<close>, with its one \<^verbatim>\<open>spaceData\<close> map,
  no space has its pages fetched more than once, whether two sources of one chunk or
  sources of successive chunks name it; only spaces named by page-type sources of the
  stream are fetched; when the stream is consumed without a failure, every space named
  by a page-type source of a non-empty chunk is fetched exactly once; and at every point
  of the trace at most one fetch is in flight.
\<close>

theorem each_space_fetched_once:
  assumes "streamAskQuestion streamAskInSite get href org site siteSpaceId question = (yielded, err, st)"
  shows "(\<forall>S. count_list (fetched (trace st)) S \<le> 1) \<and>
         set (fetched (trace st))
           \<subseteq> set (streamSpaces (streamAskInSite org site (askRequest siteSpaceId question))) \<and>
         (err = None \<longrightarrow>
            (\<forall>S. count_list (fetched (trace st)) S =
                   (if S \<in> set (streamSpaces (streamAskInSite org site (askRequest siteSpaceId question)))
                    then 1 else 0))) \<and>
         (\<forall>n. 0 \<le> inFlight (take n (trace st)) \<and> inFlight (take n (trace st)) \<le> 1)"
proof -
  let ?stream = "streamAskInSite org site (askRequest siteSpaceId question)"
  have init: "sessionInv \<lparr>spaceData = Map.empty, trace = []\<rparr>"
    by (simp add: sessionInv_def)
  from assms have run:
    "consumeStream get href ?stream \<lparr>spaceData = Map.empty, trace = []\<rparr> = (yielded, err, st)"
    by (simp add: streamAskQuestion_def)
  from consumeStream_inv[OF init run]
  have d: "distinct (fetched (trace st))"
    and p: "paired (trace st)"
    and sub: "set (fetched (trace st)) \<subseteq> set (streamSpaces ?stream)"
    and eq: "err = None \<Longrightarrow> set (fetched (trace st)) = set (streamSpaces ?stream)"
    by auto
  have fl: "0 \<le> inFlight (take n (trace st)) \<and> inFlight (take n (trace st)) \<le> 1" for n
    using p by (rule inFlight_paired)
  from d sub eq fl show ?thesis
    by (simp add: count_list_distinct)
qed

theorem each_space_fetched_once_witness:
  "snd (streamAskQuestion exampleStream exampleSpaceContent examplePageHref ''org'' ''site''
          None ''How?'')
     = (None, \<lparr>spaceData = [''S'' \<mapsto> exampleTree],
               trace = [FetchStart ''S'', FetchEnd ''S'']\<rparr>) \<and>
   streamSpaces (exampleStream ''org'' ''site'' (askRequest None ''How?''))
     = [''S'', ''S'', ''S'', ''S''] \<and>
   count_list (fetched [FetchStart ''S'', FetchEnd ''S'']) ''S'' = 1 \<and>
   inFlight (take 1 [FetchStart ''S'', FetchEnd ''S'']) = 1 \<and>
   inFlight (take 2 [FetchStart ''S'', FetchEnd ''S'']) = 0"
proof -
  let ?run = "streamAskQuestion exampleStream exampleSpaceContent examplePageHref ''org''
                ''site'' None ''How?''"
  let ?st = "\<lparr>spaceData = [''S'' \<mapsto> exampleTree], trace = [FetchStart ''S'', FetchEnd ''S'']\<rparr>"
  have s: "snd ?run = (None, ?st)"
    by (simp add: streamAskQuestion_def exampleStream_def answer_simps mixedAnswer_def
        exampleAnswer_def exampleSpaceContent_def examplePageHref_def example_defs)
  then have h: "?run = (fst ?run, None, ?st)"
    by (simp add: prod_eq_iff)
  have sp: "streamSpaces (exampleStream ''org'' ''site'' (askRequest None ''How?''))
     = [''S'', ''S'', ''S'', ''S'']"
    by (simp add: exampleStream_def mixedAnswer_def exampleAnswer_def)
  from each_space_fetched_once[OF h] s sp show ?thesis by simp
qed


end
